theory Spec2Isabelle
  imports Main
begin

section \<open>Data model\<close>

text \<open>
  The storefront keeps its rows in a relational database. The model keeps each table
  the views of \<^verbatim>\<open>orders/views.py\<close> touch as a field of one state record, and
  every view becomes a function from the state, the caller and the request data to the
  new state and the response. Python integers are unbounded, so quantities are \<open>int\<close>;
  primary keys are \<open>nat\<close>.
\<close>

text \<open>The caller: \<^verbatim>\<open>request.user\<close>, an authenticated user with its \<^verbatim>\<open>is_admin\<close> flag.\<close>

record user =
  user_id :: nat
  is_admin :: bool

text \<open>A row of \<^verbatim>\<open>Product\<close>. The price is counted in minor units.\<close>

record product =
  product_name :: string
  price :: int
  stock_quantity :: int

text \<open>
  A row of \<^verbatim>\<open>CartItem\<close>. A cart is identified by the user who owns it, so the
  foreign key \<^verbatim>\<open>cart\<close> holds that user's id.
\<close>

record cart_item =
  item_id :: nat
  cart :: nat
  product_id :: nat
  quantity :: int

datatype order_status = Pending | Processing | Shipped | Delivered | Cancelled

record order_line =
  line_product_id :: nat
  line_product_name :: string
  line_unit_price :: int
  line_quantity :: int

record order =
  order_id :: nat
  order_user :: nat
  status :: order_status
  order_lines :: "order_line list"
  total :: int

text \<open>
  The error responses of the views:
  \<^item> \<open>InvalidQuantity\<close>: 400 with \<^verbatim>\<open>'Quantity must be greater than 0'\<close>;
  \<^item> \<open>InsufficientStock\<close>: 400 with \<^verbatim>\<open>'Insufficient stock'\<close>;
  \<^item> \<open>NotFound\<close>: the 404 of \<^verbatim>\<open>get_object_or_404\<close> and \<^verbatim>\<open>get_object\<close>;
  \<^item> \<open>Forbidden\<close>: 403 with \<^verbatim>\<open>'Admin access required'\<close>;
  \<^item> \<open>InvalidTransition\<close>: the rejection of a status change;
  \<^item> \<open>MultipleObjectsReturned\<close>: raised by \<^verbatim>\<open>get_or_create\<close> when its lookup
    matches more than one row;
  \<^item> \<open>IntegrityError\<close>: a row refers to a product that does not exist.
\<close>

datatype error =
    InvalidQuantity
  | InsufficientStock
  | NotFound
  | Forbidden
  | InvalidTransition
  | MultipleObjectsReturned
  | IntegrityError

text \<open>
  The database. \<open>carts\<close> is the set of users who own a \<^verbatim>\<open>Cart\<close> row (one cart per
  user); \<open>items\<close> and \<open>orders\<close> are the tables in insertion order; the two counters
  are the next primary keys the database hands out.
\<close>

record state =
  carts :: "nat set"
  items :: "cart_item list"
  next_item_id :: nat
  products :: "nat \<rightharpoonup> product"
  orders :: "order list"
  next_order_id :: nat

section \<open>Cart views\<close>

text \<open>\<^verbatim>\<open>Cart.objects.get_or_create(user=request.user)\<close>.\<close>

definition Cart_get_or_create :: "state \<Rightarrow> nat \<Rightarrow> state" where
  "Cart_get_or_create s uid =
     (if uid \<in> carts s then s else s\<lparr>carts := insert uid (carts s)\<rparr>)"

text \<open>
  Modelled from the spec: \<^verbatim>\<open>check\<close> of the inventory ledger, the read that a
  cart mutation uses to validate a quantity without reserving it. It holds when the
  product's available stock is at least the quantity; a product the ledger does not
  know has nothing available.
\<close>

definition check :: "(nat \<rightharpoonup> product) \<Rightarrow> nat \<Rightarrow> int \<Rightarrow> bool" where
  "check L pid q = (case L pid of None \<Rightarrow> False | Some p \<Rightarrow> q \<le> stock_quantity p)"

text \<open>
  Modelled from the spec: the validation of \<^verbatim>\<open>CartItemSerializer\<close>
  (\<^verbatim>\<open>orders/serializers.py\<close>), which \<^verbatim>\<open>add_item\<close> runs before it touches the
  line table. The specification says of \<^verbatim>\<open>add_item\<close> that the quantity must be a
  positive integer, zero or a negative quantity failing with \<open>InvalidQuantity\<close>, and
  that, if the cart has no line for the product, the line is created after
  \<^verbatim>\<open>check(product_id, quantity)\<close> passes. The view itself compares with the stock
  only where a line exists already, so the check before a new line is made here.
\<close>

definition CartItemSerializer_is_valid :: "state \<Rightarrow> nat \<Rightarrow> nat \<Rightarrow> int \<Rightarrow> error option" where
  "CartItemSerializer_is_valid s uid pid q =
     (if q \<le> 0 then Some InvalidQuantity
      else if filter (\<lambda>i. cart i = uid \<and> product_id i = pid) (items s) = [] \<and>
              \<not> check (products s) pid q
      then Some InsufficientStock
      else None)"

text \<open>\<^verbatim>\<open>cart_item.save()\<close>: the row with the object's primary key takes its fields.\<close>

definition save_item :: "cart_item \<Rightarrow> cart_item list \<Rightarrow> cart_item list" where
  "save_item ci xs = map (\<lambda>j. if item_id j = item_id ci then ci else j) xs"

text \<open>
  \<^verbatim>\<open>add_item\<close>. The cart is created before the payload is validated, and each statement
  commits on its own, so the cart stays when the request is rejected later.
  \<^verbatim>\<open>CartItem.objects.get_or_create\<close> looks the line up by cart and product: with no
  match it inserts a line holding the requested quantity, and the view's own comparison
  with the product's stock is in the branch for an existing line.
\<close>

definition add_item :: "state \<Rightarrow> user \<Rightarrow> nat \<Rightarrow> int \<Rightarrow> state \<times> (error + cart_item)" where
  "add_item s u pid q =
     (let s1 = Cart_get_or_create s (user_id u) in
      case CartItemSerializer_is_valid s1 (user_id u) pid q of
        Some e \<Rightarrow> (s1, Inl e)
      | None \<Rightarrow>
         (case filter (\<lambda>i. cart i = user_id u \<and> product_id i = pid) (items s1) of
            [] \<Rightarrow>
              (case products s1 pid of
                 None \<Rightarrow> (s1, Inl IntegrityError)
               | Some p \<Rightarrow>
                  (let ci = \<lparr>item_id = next_item_id s1, cart = user_id u,
                              product_id = pid, quantity = q\<rparr>
                   in (s1\<lparr>items := items s1 @ [ci],
                          next_item_id := Suc (next_item_id s1)\<rparr>, Inr ci)))
          | [ci] \<Rightarrow>
              (let ci' = ci\<lparr>quantity := quantity ci + q\<rparr> in
               case products s1 pid of
                 None \<Rightarrow> (s1, Inl IntegrityError)
               | Some p \<Rightarrow>
                  if quantity ci' > stock_quantity p then (s1, Inl InsufficientStock)
                  else (s1\<lparr>items := save_item ci' (items s1)\<rparr>, Inr ci'))
          | _ \<Rightarrow> (s1, Inl MultipleObjectsReturned)))"

text \<open>
  \<^verbatim>\<open>get_object_or_404(CartItem, cart=cart, id=item_id)\<close>. The id is the primary key,
  so at most one row matches; \<^verbatim>\<open>request.data.get('item_id')\<close> is \<open>None\<close> when the
  payload has no such key, and then no row matches.
\<close>

definition get_cart_item :: "state \<Rightarrow> nat \<Rightarrow> nat option \<Rightarrow> cart_item option" where
  "get_cart_item s uid iid =
     (case iid of
        None \<Rightarrow> None
      | Some k \<Rightarrow> find (\<lambda>i. cart i = uid \<and> item_id i = k) (items s))"

text \<open>
  \<^verbatim>\<open>update_item\<close>. The cart is looked up with \<^verbatim>\<open>get_object_or_404\<close>, not created;
  \<^verbatim>\<open>request.data.get('quantity', 1)\<close> is 1 when the payload has no quantity.
\<close>

definition update_item ::
  "state \<Rightarrow> user \<Rightarrow> nat option \<Rightarrow> int option \<Rightarrow> state \<times> (error + cart_item)" where
  "update_item s u iid qo =
     (if user_id u \<notin> carts s then (s, Inl NotFound)
      else
        let q = (case qo of None \<Rightarrow> 1 | Some v \<Rightarrow> v) in
        if q \<le> 0 then (s, Inl InvalidQuantity)
        else
          case get_cart_item s (user_id u) iid of
            None \<Rightarrow> (s, Inl NotFound)
          | Some ci \<Rightarrow>
             (case products s (product_id ci) of
                None \<Rightarrow> (s, Inl IntegrityError)
              | Some p \<Rightarrow>
                 if q > stock_quantity p then (s, Inl InsufficientStock)
                 else
                   let ci' = ci\<lparr>quantity := q\<rparr>
                   in (s\<lparr>items := save_item ci' (items s)\<rparr>, Inr ci')))"

text \<open>\<^verbatim>\<open>remove_item\<close>: \<^verbatim>\<open>cart_item.delete()\<close> removes the row with that primary key.\<close>

definition remove_item :: "state \<Rightarrow> user \<Rightarrow> nat option \<Rightarrow> state \<times> (error + unit)" where
  "remove_item s u iid =
     (if user_id u \<notin> carts s then (s, Inl NotFound)
      else
        case get_cart_item s (user_id u) iid of
          None \<Rightarrow> (s, Inl NotFound)
        | Some ci \<Rightarrow>
           (s\<lparr>items := filter (\<lambda>j. item_id j \<noteq> item_id ci) (items s)\<rparr>, Inr ()))"

text \<open>\<^verbatim>\<open>clear\<close>: \<^verbatim>\<open>cart.items.all().delete()\<close> removes every line of the cart.\<close>

definition clear :: "state \<Rightarrow> user \<Rightarrow> state \<times> (error + unit)" where
  "clear s u =
     (if user_id u \<notin> carts s then (s, Inl NotFound)
      else (s\<lparr>items := filter (\<lambda>j. cart j \<noteq> user_id u) (items s)\<rparr>, Inr ()))"

text \<open>The lines of a user's cart, as \<^verbatim>\<open>cart.items.all()\<close> lists them.\<close>

definition cart_lines :: "state \<Rightarrow> nat \<Rightarrow> cart_item list" where
  "cart_lines s uid = filter (\<lambda>i. cart i = uid) (items s)"

section \<open>Order views\<close>

text \<open>\<^verbatim>\<open>OrderViewSet.get_queryset\<close>: every order for an administrator, the caller's own otherwise.\<close>

definition get_queryset :: "state \<Rightarrow> user \<Rightarrow> order list" where
  "get_queryset s u =
     (if is_admin u then orders s
      else filter (\<lambda>ord. order_user ord = user_id u) (orders s))"

text \<open>The \<^verbatim>\<open>list\<close> view serialises the queryset as it is.\<close>

definition list_orders :: "state \<Rightarrow> user \<Rightarrow> order list" where
  "list_orders s u = get_queryset s u"

text \<open>
  Modelled from the spec: the transition check of \<^verbatim>\<open>OrderStatusUpdateSerializer\<close>
  (\<^verbatim>\<open>orders/serializers.py\<close>). The specification allows pending to processing to
  shipped to delivered, and cancelled from pending or processing; every other
  transition is rejected with \<open>InvalidTransition\<close>.
\<close>

fun valid_transition :: "order_status \<Rightarrow> order_status \<Rightarrow> bool" where
  "valid_transition Pending Processing = True"
| "valid_transition Processing Shipped = True"
| "valid_transition Shipped Delivered = True"
| "valid_transition Pending Cancelled = True"
| "valid_transition Processing Cancelled = True"
| "valid_transition _ _ = False"

text \<open>
  \<^verbatim>\<open>update_status\<close>. The admin test comes first; \<^verbatim>\<open>self.get_object()\<close> then looks
  the primary key up in the queryset (404 when absent), and the serializer runs with
  \<^verbatim>\<open>partial=True\<close>, so a payload without a status is accepted and changes nothing.
\<close>

definition update_status ::
  "state \<Rightarrow> user \<Rightarrow> nat \<Rightarrow> order_status option \<Rightarrow> state \<times> (error + order)" where
  "update_status s u pk new =
     (if \<not> is_admin u then (s, Inl Forbidden)
      else
        case find (\<lambda>ord. order_id ord = pk) (get_queryset s u) of
          None \<Rightarrow> (s, Inl NotFound)
        | Some ord \<Rightarrow>
           (case new of
              None \<Rightarrow> (s, Inr ord)
            | Some st \<Rightarrow>
               if valid_transition (status ord) st then
                 let ord' = ord\<lparr>status := st\<rparr>
                 in (s\<lparr>orders := map (\<lambda>x. if order_id x = pk then ord' else x) (orders s)\<rparr>,
                     Inr ord')
               else (s, Inl InvalidTransition)))"

section \<open>Inventory ledger and order factory\<close>

text \<open>A failed reservation: the product, the quantity requested and the quantity available.\<close>

datatype stock_failure = StockFailure nat int int

datatype order_creation_error = EmptyCart | InsufficientStockFor "stock_failure list"

text \<open>
  Modelled from the spec: \<^verbatim>\<open>reserve\<close> of the inventory ledger, which the source keeps
  outside \<^verbatim>\<open>orders/views.py\<close>. It checks that the available stock is at least the
  quantity; if so it decrements the stock by the quantity, and if not it fails, carrying
  product, request and available quantity, with no side effect. A product the ledger
  does not know has nothing available.
\<close>

definition reserve ::
  "(nat \<rightharpoonup> product) \<Rightarrow> nat \<Rightarrow> int \<Rightarrow> stock_failure + (nat \<rightharpoonup> product)" where
  "reserve L pid q =
     (case L pid of
        None \<Rightarrow> Inl (StockFailure pid q 0)
      | Some p \<Rightarrow>
         if stock_quantity p \<ge> q
         then Inr (L(pid \<mapsto> p\<lparr>stock_quantity := stock_quantity p - q\<rparr>))
         else Inl (StockFailure pid q (stock_quantity p)))"

text \<open>
  Modelled from the spec: \<^verbatim>\<open>release\<close> of the inventory ledger, the compensating
  action: it increments the available stock by the quantity.
\<close>

definition release :: "(nat \<rightharpoonup> product) \<Rightarrow> nat \<Rightarrow> int \<Rightarrow> (nat \<rightharpoonup> product)" where
  "release L pid q =
     (case L pid of
        None \<Rightarrow> L
      | Some p \<Rightarrow> L(pid \<mapsto> p\<lparr>stock_quantity := stock_quantity p + q\<rparr>))"

text \<open>
  Modelled from the spec: step 3 of the order factory. Every cart line is reserved in
  turn; the lines reserved and the failures are both collected, so that every line that
  failed can be named.
\<close>

fun reserve_lines ::
  "(nat \<rightharpoonup> product) \<Rightarrow> cart_item list \<Rightarrow>
     (nat \<rightharpoonup> product) \<times> cart_item list \<times> stock_failure list" where
  "reserve_lines L [] = (L, [], [])"
| "reserve_lines L (i # rest) =
     (case reserve L (product_id i) (quantity i) of
        Inr L' \<Rightarrow>
          (case reserve_lines L' rest of (L'', rs, fs) \<Rightarrow> (L'', i # rs, fs))
      | Inl f \<Rightarrow>
          (case reserve_lines L rest of (L'', rs, fs) \<Rightarrow> (L'', rs, f # fs)))"

text \<open>Modelled from the spec: step 4, the release of every line already reserved.\<close>

fun release_lines :: "(nat \<rightharpoonup> product) \<Rightarrow> cart_item list \<Rightarrow> (nat \<rightharpoonup> product)" where
  "release_lines L [] = L"
| "release_lines L (i # rest) = release_lines (release L (product_id i) (quantity i)) rest"

text \<open>
  Modelled from the spec: the snapshot of a cart line into an order line, with the
  product's name and its unit price at that moment.
\<close>

definition snapshot :: "(nat \<rightharpoonup> product) \<Rightarrow> cart_item \<Rightarrow> order_line option" where
  "snapshot L i =
     (case L (product_id i) of
        None \<Rightarrow> None
      | Some p \<Rightarrow>
         Some \<lparr>line_product_id = product_id i, line_product_name = product_name p,
               line_unit_price = price p, line_quantity = quantity i\<rparr>)"

definition order_total :: "order_line list \<Rightarrow> int" where
  "order_total ls = sum_list (map (\<lambda>l. line_unit_price l * line_quantity l) ls)"

text \<open>
  Modelled from the spec: the order factory behind \<^verbatim>\<open>OrderCreateSerializer\<close>
  (\<^verbatim>\<open>orders/serializers.py\<close>), steps 1 to 6 of the specification. The cart is loaded
  and an empty one fails with \<open>EmptyCart\<close>; the lines are reserved in ascending order
  of product id; if a reservation failed, the reserved lines are released and the
  operation fails with every failure; otherwise the lines are snapshot into a pending
  order, the cart is cleared and the order is returned.
\<close>

definition order_factory_create ::
  "state \<Rightarrow> nat \<Rightarrow> state \<times> (order_creation_error + order)" where
  "order_factory_create s uid =
     (let lines = sort_key product_id (filter (\<lambda>i. cart i = uid) (items s)) in
      if lines = [] then (s, Inl EmptyCart)
      else
        case reserve_lines (products s) lines of
          (L, rs, fs) \<Rightarrow>
            if fs \<noteq> [] then
              (s\<lparr>products := release_lines L rs\<rparr>, Inl (InsufficientStockFor fs))
            else
              let ls = List.map_filter (snapshot L) lines;
                  ord = \<lparr>order_id = next_order_id s, order_user = uid, status = Pending,
                           order_lines = ls, total = order_total ls\<rparr>
              in (s\<lparr>products := L,
                     items := filter (\<lambda>j. cart j \<noteq> uid) (items s),
                     orders := orders s @ [ord],
                     next_order_id := Suc (next_order_id s)\<rparr>, Inr ord))"

text \<open>
  \<^verbatim>\<open>create_order\<close>: the view hands the request to \<^verbatim>\<open>OrderCreateSerializer\<close> and
  answers with the order it saved.
\<close>

definition create_order :: "state \<Rightarrow> user \<Rightarrow> state \<times> (order_creation_error + order)" where
  "create_order s u = order_factory_create s (user_id u)"

text \<open>
  The quantity a list of cart lines holds of one product: the sum over the lines for it.
\<close>

definition line_qty :: "nat \<Rightarrow> cart_item list \<Rightarrow> int" where
  "line_qty pid ls = sum_list (map quantity (filter (\<lambda>i. product_id i = pid) ls))"

section \<open>Sequences of requests\<close>

text \<open>
  A client that sends one \<^verbatim>\<open>add_item\<close> request after another for the same product:
  every request runs on the state the one before it left, whatever it answered, and
  the answers are collected in order.
\<close>

fun add_items ::
  "state \<Rightarrow> user \<Rightarrow> nat \<Rightarrow> int list \<Rightarrow> state \<times> (error + cart_item) list" where
  "add_items s u pid [] = (s, [])"
| "add_items s u pid (q # qs) =
     (case add_item s u pid q of
        (s1, r) \<Rightarrow> (case add_items s1 u pid qs of (s2, rs) \<Rightarrow> (s2, r # rs)))"

text \<open>
  The primary keys of the line table: no two rows share an id, and every id in use is
  below the next one the database hands out.
\<close>

definition pk_ok :: "state \<Rightarrow> bool" where
  "pk_ok s = (distinct (map item_id (items s)) \<and>
              (\<forall>i \<in> set (items s). item_id i < next_item_id s))"

section \<open>A small shop\<close>

text \<open>
  Concrete data for the worked cases: two products, two customers and an administrator,
  a shop nobody has used yet, and a shop with two carts and two orders.
\<close>

definition widget :: product where
  "widget = \<lparr>product_name = ''widget'', price = 250, stock_quantity = 5\<rparr>"

definition gadget :: product where
  "gadget = \<lparr>product_name = ''gadget'', price = 1000, stock_quantity = 2\<rparr>"

definition alice :: user where
  "alice = \<lparr>user_id = 1, is_admin = False\<rparr>"

definition bob :: user where
  "bob = \<lparr>user_id = 2, is_admin = False\<rparr>"

definition carol :: user where
  "carol = \<lparr>user_id = 3, is_admin = True\<rparr>"

definition order1 :: order where
  "order1 = \<lparr>order_id = 1, order_user = 1, status = Pending, order_lines = [], total = 0\<rparr>"

definition order2 :: order where
  "order2 = \<lparr>order_id = 2, order_user = 2, status = Delivered, order_lines = [], total = 0\<rparr>"

definition shop0 :: state where
  "shop0 = \<lparr>carts = {}, items = [], next_item_id = 1,
            products = [7 \<mapsto> widget, 8 \<mapsto> gadget], orders = [], next_order_id = 1\<rparr>"

definition shop1 :: state where
  "shop1 = \<lparr>carts = {1, 2},
            items = [\<lparr>item_id = 1, cart = 1, product_id = 7, quantity = 3\<rparr>,
                     \<lparr>item_id = 2, cart = 2, product_id = 7, quantity = 3\<rparr>,
                     \<lparr>item_id = 3, cart = 2, product_id = 8, quantity = 1\<rparr>],
            next_item_id = 4,
            products = [7 \<mapsto> widget, 8 \<mapsto> gadget],
            orders = [order1, order2], next_order_id = 3\<rparr>"

text \<open>A shop in which bob's cart asks for more gadgets than there are.\<close>

definition shop2 :: state where
  "shop2 = \<lparr>carts = {1, 2},
            items = [\<lparr>item_id = 1, cart = 1, product_id = 7, quantity = 3\<rparr>,
                     \<lparr>item_id = 2, cart = 2, product_id = 8, quantity = 4\<rparr>,
                     \<lparr>item_id = 3, cart = 2, product_id = 7, quantity = 3\<rparr>],
            next_item_id = 4,
            products = [7 \<mapsto> widget, 8 \<mapsto> gadget],
            orders = [], next_order_id = 1\<rparr>"

lemmas shop_defs =
  widget_def gadget_def alice_def bob_def carol_def order1_def order2_def shop0_def shop1_def

section \<open>Order listing and the admin gate\<close>

text \<open>
  C9. An administrator's listing is the whole order table. The listing of a caller who
  is not an administrator is the table filtered by owner: it holds exactly the orders
  that caller owns, and never an order of another user.
\<close>

theorem list_orders_scoped:
  "(is_admin u \<longrightarrow> list_orders s u = orders s) \<and>
   (\<not> is_admin u \<longrightarrow>
      list_orders s u = filter (\<lambda>ord. order_user ord = user_id u) (orders s) \<and>
      set (list_orders s u) = {ord \<in> set (orders s). order_user ord = user_id u} \<and>
      (\<forall>ord \<in> set (list_orders s u). order_user ord = user_id u))"
  by (auto simp: list_orders_def get_queryset_def)

theorem list_orders_scoped_witness:
  "list_orders shop1 carol = [order1, order2] \<and> list_orders shop1 alice = [order1] \<and>
   order2 \<notin> set (list_orders shop1 alice)"
  using list_orders_scoped [of carol shop1] list_orders_scoped [of alice shop1]
  by (simp add: shop_defs)

text \<open>
  C8. A caller whose \<open>is_admin\<close> flag is false gets \<open>Forbidden\<close> from
  \<open>update_status\<close> for every order key and every requested status, and the state,
  so the order's status too, is unchanged. \<open>Forbidden\<close> is the answer for such callers
  only: an administrator always gets past the gate.
\<close>

theorem update_status_admin_only:
  "(\<not> is_admin u \<longrightarrow> update_status s u pk new = (s, Inl Forbidden)) \<and>
   ((snd (update_status s u pk new) = Inl Forbidden) = (\<not> is_admin u))"
  by (auto simp: update_status_def Let_def split: option.splits)

theorem update_status_admin_only_witness:
  "update_status shop1 alice 1 (Some Processing) = (shop1, Inl Forbidden) \<and>
   snd (update_status shop1 carol 1 (Some Processing)) \<noteq> Inl Forbidden"
  using update_status_admin_only [of alice shop1 1 "Some Processing"]
        update_status_admin_only [of carol shop1 1 "Some Processing"]
  by (simp add: alice_def carol_def)

section \<open>The order status machine\<close>

lemma find_order_updated:
  "find (\<lambda>x. order_id x = pk) xs = Some ord \<Longrightarrow>
   find (\<lambda>x. order_id x = pk) (map (\<lambda>x. if order_id x = pk then ord\<lparr>status := st\<rparr> else x) xs)
     = Some (ord\<lparr>status := st\<rparr>)"
  by (induction xs) (auto simp: find_Some_iff split: if_splits)

lemma valid_transition_iff:
  "valid_transition a b =
     ((a, b) \<in> {(Pending, Processing), (Processing, Shipped), (Shipped, Delivered),
                (Pending, Cancelled), (Processing, Cancelled)})"
  by (cases a; cases b) simp_all

text \<open>
  C7. When an administrator asks for a new status of an existing order, the request
  succeeds, and stores the new status, exactly for the five transitions pending to
  processing, processing to shipped, shipped to delivered, pending to cancelled and
  processing to cancelled. Every other request fails with \<open>InvalidTransition\<close> and
  changes nothing; in particular every request on a delivered or cancelled order does.
\<close>

theorem order_status_machine:
  "is_admin u \<and> find (\<lambda>x. order_id x = pk) (orders s) = Some ord \<longrightarrow>
     ((status ord, st) \<in> {(Pending, Processing), (Processing, Shipped), (Shipped, Delivered),
                           (Pending, Cancelled), (Processing, Cancelled)} \<longrightarrow>
        (\<exists>s'. update_status s u pk (Some st) = (s', Inr (ord\<lparr>status := st\<rparr>)) \<and>
              find (\<lambda>x. order_id x = pk) (orders s') = Some (ord\<lparr>status := st\<rparr>))) \<and>
     ((status ord, st) \<notin> {(Pending, Processing), (Processing, Shipped), (Shipped, Delivered),
                           (Pending, Cancelled), (Processing, Cancelled)} \<longrightarrow>
        update_status s u pk (Some st) = (s, Inl InvalidTransition)) \<and>
     (status ord = Delivered \<or> status ord = Cancelled \<longrightarrow>
        update_status s u pk (Some st) = (s, Inl InvalidTransition))"
proof (intro impI, elim conjE)
  assume adm: "is_admin u" and f: "find (\<lambda>x. order_id x = pk) (orders s) = Some ord"
  have q: "find (\<lambda>x. order_id x = pk) (get_queryset s u) = Some ord"
    using adm f by (simp add: get_queryset_def)
  have ok: "valid_transition (status ord) st \<Longrightarrow>
      \<exists>s'. update_status s u pk (Some st) = (s', Inr (ord\<lparr>status := st\<rparr>)) \<and>
           find (\<lambda>x. order_id x = pk) (orders s') = Some (ord\<lparr>status := st\<rparr>)"
    using adm q f by (simp add: update_status_def Let_def find_order_updated)
  have bad: "\<not> valid_transition (status ord) st \<Longrightarrow>
      update_status s u pk (Some st) = (s, Inl InvalidTransition)"
    using adm q by (simp add: update_status_def)
  have terminal: "status ord = Delivered \<or> status ord = Cancelled \<Longrightarrow>
      \<not> valid_transition (status ord) st"
    by (auto simp: valid_transition_iff)
  show "((status ord, st) \<in> {(Pending, Processing), (Processing, Shipped), (Shipped, Delivered),
                           (Pending, Cancelled), (Processing, Cancelled)} \<longrightarrow>
        (\<exists>s'. update_status s u pk (Some st) = (s', Inr (ord\<lparr>status := st\<rparr>)) \<and>
              find (\<lambda>x. order_id x = pk) (orders s') = Some (ord\<lparr>status := st\<rparr>))) \<and>
     ((status ord, st) \<notin> {(Pending, Processing), (Processing, Shipped), (Shipped, Delivered),
                           (Pending, Cancelled), (Processing, Cancelled)} \<longrightarrow>
        update_status s u pk (Some st) = (s, Inl InvalidTransition)) \<and>
     (status ord = Delivered \<or> status ord = Cancelled \<longrightarrow>
        update_status s u pk (Some st) = (s, Inl InvalidTransition))"
    using ok bad terminal unfolding valid_transition_iff [symmetric] by blast
qed

theorem order_status_machine_witness:
  "update_status shop1 carol 2 (Some Pending) = (shop1, Inl InvalidTransition) \<and>
   update_status shop1 carol 1 (Some Shipped) = (shop1, Inl InvalidTransition) \<and>
   (\<exists>s'. update_status shop1 carol 1 (Some Processing) = (s', Inr (order1\<lparr>status := Processing\<rparr>)) \<and>
         find (\<lambda>x. order_id x = 1) (orders s') = Some (order1\<lparr>status := Processing\<rparr>))"
proof -
  have f1: "find (\<lambda>x. order_id x = 1) (orders shop1) = Some order1"
    and f2: "find (\<lambda>x. order_id x = 2) (orders shop1) = Some order2"
    by (simp_all add: shop_defs)
  have adm: "is_admin carol" by (simp add: carol_def)
  show ?thesis
    using order_status_machine [of carol 2 shop1 order2 Pending]
          order_status_machine [of carol 1 shop1 order1 Shipped]
          order_status_machine [of carol 1 shop1 order1 Processing]
          f1 f2 adm
    by (simp add: order1_def order2_def)
qed

section \<open>Looking up and saving cart lines\<close>

lemma items_Cart_get_or_create [simp]: "items (Cart_get_or_create s uid) = items s"
  by (simp add: Cart_get_or_create_def)

lemma products_Cart_get_or_create [simp]: "products (Cart_get_or_create s uid) = products s"
  by (simp add: Cart_get_or_create_def)

lemma next_item_id_Cart_get_or_create [simp]:
  "next_item_id (Cart_get_or_create s uid) = next_item_id s"
  by (simp add: Cart_get_or_create_def)

lemma find_save_item:
  assumes "find (\<lambda>i. cart i = c \<and> item_id i = k) xs = Some ci"
  shows "find (\<lambda>i. cart i = c \<and> item_id i = k) (save_item (ci\<lparr>quantity := q\<rparr>) xs)
           = Some (ci\<lparr>quantity := q\<rparr>)"
proof -
  from assms have ci: "cart ci = c" "item_id ci = k"
    by (auto simp: find_Some_iff)
  from assms show ?thesis
    unfolding save_item_def
    by (induction xs) (auto simp: ci split: if_splits)
qed

lemma get_cart_item_save:
  "get_cart_item s uid iid = Some ci \<Longrightarrow>
   get_cart_item (s\<lparr>items := save_item (ci\<lparr>quantity := q\<rparr>) (items s)\<rparr>) uid iid
     = Some (ci\<lparr>quantity := q\<rparr>)"
  by (auto simp: get_cart_item_def find_save_item split: option.splits)

lemma get_cart_item_SomeD:
  "get_cart_item s uid iid = Some ci \<Longrightarrow>
   ci \<in> set (items s) \<and> cart ci = uid \<and> iid = Some (item_id ci)"
  by (auto simp: get_cart_item_def find_Some_iff split: option.splits)

lemma filter_singletonD: "filter P xs = [x] \<Longrightarrow> x \<in> set xs \<and> P x"
proof -
  assume "filter P xs = [x]"
  then have "x \<in> set (filter P xs)" by simp
  then show ?thesis by simp
qed

lemma same_key_same_row:
  "distinct (map item_id xs) \<Longrightarrow> ci \<in> set xs \<Longrightarrow> j \<in> set xs \<Longrightarrow>
   item_id j = item_id ci \<Longrightarrow> j = ci"
  by (meson distinct_map inj_on_def)

lemma save_item_other_carts:
  assumes "distinct (map item_id xs)" and "ci \<in> set xs"
    and "item_id ci' = item_id ci" and "cart ci' = cart ci" and "v \<noteq> cart ci"
  shows "filter (\<lambda>j. cart j = v) (save_item ci' xs) = filter (\<lambda>j. cart j = v) xs"
proof -
  have "\<forall>j \<in> set xs. item_id j = item_id ci \<longrightarrow> cart j \<noteq> v"
    using assms same_key_same_row by blast
  then show ?thesis
    unfolding save_item_def using assms(3,4,5)
    by (induction xs) auto
qed

lemma delete_item_other_carts:
  assumes "distinct (map item_id xs)" and "ci \<in> set xs" and "v \<noteq> cart ci"
  shows "filter (\<lambda>j. cart j = v) (filter (\<lambda>j. item_id j \<noteq> item_id ci) xs)
           = filter (\<lambda>j. cart j = v) xs"
proof -
  have "\<forall>j \<in> set xs. item_id j = item_id ci \<longrightarrow> cart j \<noteq> v"
    using assms same_key_same_row by blast
  then show ?thesis
    by (induction xs) auto
qed

section \<open>update_item\<close>

lemma update_item_error_state:
  "update_item s u iid qo = (s', Inl e) \<Longrightarrow> s' = s"
  by (auto simp: update_item_def Let_def split: if_splits option.splits)

text \<open>
  C4, as amended. \<open>update_item\<close> runs its checks in a fixed order. A caller without a
  cart gets \<open>NotFound\<close>. For a caller with a cart the request fails with
  \<open>InvalidQuantity\<close> exactly when the quantity is not positive; with a positive
  quantity it fails with \<open>NotFound\<close> exactly when the item is not a line of the
  caller's cart; with a positive quantity and a line of the caller's cart it fails with
  \<open>InsufficientStock\<close> exactly when the quantity exceeds the product's stock, and
  otherwise it succeeds and the stored line holds the requested quantity. Every failure
  leaves the state, so the stored line too, unchanged.
\<close>

theorem update_item_checks_in_order:
  "(user_id u \<notin> carts s \<longrightarrow> update_item s u iid (Some q) = (s, Inl NotFound)) \<and>
   (user_id u \<in> carts s \<longrightarrow>
      ((snd (update_item s u iid (Some q)) = Inl InvalidQuantity) = (q \<le> 0)) \<and>
      (0 < q \<longrightarrow>
         ((snd (update_item s u iid (Some q)) = Inl NotFound)
            = (get_cart_item s (user_id u) iid = None))) \<and>
      (0 < q \<and> get_cart_item s (user_id u) iid = Some ci \<and>
       products s (product_id ci) = Some p \<longrightarrow>
         ((snd (update_item s u iid (Some q)) = Inl InsufficientStock)
            = (stock_quantity p < q)) \<and>
         (q \<le> stock_quantity p \<longrightarrow>
            (\<exists>s'. update_item s u iid (Some q) = (s', Inr (ci\<lparr>quantity := q\<rparr>)) \<and>
                  get_cart_item s' (user_id u) iid = Some (ci\<lparr>quantity := q\<rparr>))))) \<and>
   (\<forall>s' e. update_item s u iid (Some q) = (s', Inl e) \<longrightarrow> s' = s)"
proof (intro conjI impI allI)
  show "\<And>s' e. update_item s u iid (Some q) = (s', Inl e) \<Longrightarrow> s' = s"
    by (rule update_item_error_state)
qed (auto simp: update_item_def Let_def get_cart_item_save split: option.splits)

theorem update_item_checks_in_order_witness:
  "update_item shop0 alice (Some 1) (Some 0) = (shop0, Inl NotFound) \<and>
   update_item shop1 alice (Some 1) (Some 0) = (shop1, Inl InvalidQuantity) \<and>
   update_item shop1 alice (Some 2) (Some 4) = (shop1, Inl NotFound) \<and>
   update_item shop1 alice (Some 1) (Some 6) = (shop1, Inl InsufficientStock) \<and>
   (\<exists>s'. update_item shop1 alice (Some 1) (Some 5)
            = (s', Inr \<lparr>item_id = 1, cart = 1, product_id = 7, quantity = 5\<rparr>) \<and>
         get_cart_item s' 1 (Some 1) = Some \<lparr>item_id = 1, cart = 1, product_id = 7, quantity = 5\<rparr>)"
proof -
  let ?ci = "\<lparr>item_id = 1, cart = 1, product_id = 7, quantity = 3\<rparr>"
  have c0: "user_id alice \<notin> carts shop0" and c1: "user_id alice \<in> carts shop1"
    by (simp_all add: alice_def shop0_def shop1_def)
  have g1: "get_cart_item shop1 (user_id alice) (Some 1) = Some ?ci"
    and g2: "get_cart_item shop1 (user_id alice) (Some 2) = None"
    and p: "products shop1 (product_id ?ci) = Some widget"
    by (simp_all add: get_cart_item_def alice_def shop1_def)
  have st: "stock_quantity widget = 5" by (simp add: widget_def)
  show ?thesis
    using update_item_checks_in_order [of alice shop0 "Some 1" 0 ?ci widget]
          update_item_checks_in_order [of alice shop1 "Some 1" 0 ?ci widget]
          update_item_checks_in_order [of alice shop1 "Some 2" 4 ?ci widget]
          update_item_checks_in_order [of alice shop1 "Some 1" 6 ?ci widget]
          update_item_checks_in_order [of alice shop1 "Some 1" 5 ?ci widget]
          c0 c1 g1 g2 p st
    by (auto simp: alice_def prod_eq_iff)
qed

text \<open>
  The claim as first stated fails. Item 2 is not a line of alice's cart, yet a request
  for quantity 0 is answered \<open>InvalidQuantity\<close>, not \<open>NotFound\<close>; a request for 6 of
  a product with 5 in stock is answered \<open>NotFound\<close>, not \<open>InsufficientStock\<close>; and
  without a cart a request for quantity 0 is answered \<open>NotFound\<close>, not
  \<open>InvalidQuantity\<close>.
\<close>

theorem update_item_checks_counterexample:
  "get_cart_item shop1 (user_id alice) (Some 2) = None \<and>
   stock_quantity widget < 6 \<and>
   update_item shop1 alice (Some 2) (Some 0) = (shop1, Inl InvalidQuantity) \<and>
   update_item shop1 alice (Some 2) (Some 6) = (shop1, Inl NotFound) \<and>
   update_item shop0 alice (Some 1) (Some 0) = (shop0, Inl NotFound)"
  by (simp add: update_item_def get_cart_item_def shop_defs)

text \<open>
  C10. A payload without a quantity is handled as quantity 1: the request behaves as
  the one asking for 1, it is never answered \<open>InvalidQuantity\<close>, and when it
  succeeds the stored line holds quantity 1 whatever it held before.
\<close>

theorem update_item_default_quantity:
  "update_item s u iid None = update_item s u iid (Some 1) \<and>
   snd (update_item s u iid None) \<noteq> Inl InvalidQuantity \<and>
   (\<forall>s' ci. update_item s u iid None = (s', Inr ci) \<longrightarrow>
      quantity ci = 1 \<and> get_cart_item s' (user_id u) iid = Some ci)"
  by (auto simp: update_item_def Let_def get_cart_item_save split: if_splits option.splits)

theorem update_item_default_quantity_witness:
  "update_item shop1 alice (Some 1) None =
     (shop1\<lparr>items := [\<lparr>item_id = 1, cart = 1, product_id = 7, quantity = 1\<rparr>,
                       \<lparr>item_id = 2, cart = 2, product_id = 7, quantity = 3\<rparr>,
                       \<lparr>item_id = 3, cart = 2, product_id = 8, quantity = 1\<rparr>]\<rparr>,
      Inr \<lparr>item_id = 1, cart = 1, product_id = 7, quantity = 1\<rparr>) \<and>
   get_cart_item (fst (update_item shop1 alice (Some 1) None)) 1 (Some 1)
     = Some \<lparr>item_id = 1, cart = 1, product_id = 7, quantity = 1\<rparr>"
proof -
  have run: "update_item shop1 alice (Some 1) None =
     (shop1\<lparr>items := [\<lparr>item_id = 1, cart = 1, product_id = 7, quantity = 1\<rparr>,
                       \<lparr>item_id = 2, cart = 2, product_id = 7, quantity = 3\<rparr>,
                       \<lparr>item_id = 3, cart = 2, product_id = 8, quantity = 1\<rparr>]\<rparr>,
      Inr \<lparr>item_id = 1, cart = 1, product_id = 7, quantity = 1\<rparr>)"
    by (simp add: update_item_def get_cart_item_def save_item_def Let_def shop_defs)
  with update_item_default_quantity [of shop1 alice "Some 1"] show ?thesis
    by (simp add: alice_def)
qed

section \<open>clear\<close>

text \<open>
  C5, as amended. For a caller who owns a cart, \<open>clear\<close> succeeds and leaves the cart
  with no lines, a second \<open>clear\<close> succeeds again and changes nothing, and on a cart
  that is already empty \<open>clear\<close> changes nothing. For a caller who owns no cart,
  \<open>clear\<close> fails with \<open>NotFound\<close> and changes nothing.
\<close>

theorem clear_twice:
  "(user_id u \<in> carts s \<longrightarrow>
     (\<exists>s'. clear s u = (s', Inr ()) \<and> cart_lines s' (user_id u) = [] \<and>
           clear s' u = (s', Inr ()) \<and>
           (cart_lines s (user_id u) = [] \<longrightarrow> s' = s))) \<and>
   (user_id u \<notin> carts s \<longrightarrow> clear s u = (s, Inl NotFound))"
  by (auto simp: clear_def cart_lines_def filter_empty_conv filter_id_conv)

theorem clear_twice_witness:
  "user_id bob \<in> carts shop1 \<and> cart_lines shop1 2 \<noteq> [] \<and>
   (\<exists>s'. clear shop1 bob = (s', Inr ()) \<and> cart_lines s' 2 = [] \<and> clear s' bob = (s', Inr ())) \<and>
   user_id bob \<notin> carts shop0 \<and> clear shop0 bob = (shop0, Inl NotFound)"
  using clear_twice [of bob shop1] clear_twice [of bob shop0]
  by (simp add: bob_def shop1_def shop0_def cart_lines_def)

text \<open>
  The claim as first stated fails for a user who has not yet got a cart: both calls are
  answered \<open>NotFound\<close>.
\<close>

theorem clear_without_cart_counterexample:
  "cart_lines shop0 (user_id alice) = [] \<and>
   snd (clear shop0 alice) = Inl NotFound \<and>
   snd (clear (fst (clear shop0 alice)) alice) = Inl NotFound"
  by (simp add: clear_def cart_lines_def shop0_def alice_def)

section \<open>Whose cart an operation touches\<close>

lemma add_item_creates_cart: "user_id u \<in> carts (fst (add_item s u pid q))"
  by (auto simp: add_item_def Cart_get_or_create_def Let_def
           split: option.splits list.splits)

lemma add_item_not_NotFound: "snd (add_item s u pid q) \<noteq> Inl NotFound"
  by (auto simp: add_item_def Cart_get_or_create_def CartItemSerializer_is_valid_def Let_def
           split: option.splits list.splits if_splits)

lemma add_item_other_carts:
  assumes "distinct (map item_id (items s))" and "v \<noteq> user_id u"
  shows "cart_lines (fst (add_item s u pid q)) v = cart_lines s v"
proof (cases "filter (\<lambda>i. cart i = user_id u \<and> product_id i = pid) (items s)")
  case Nil
  then show ?thesis using assms(2)
    by (auto simp: add_item_def cart_lines_def Let_def split: option.splits)
next
  case (Cons ci rest)
  show ?thesis
  proof (cases rest)
    case Nil
    with Cons have one: "filter (\<lambda>i. cart i = user_id u \<and> product_id i = pid) (items s) = [ci]"
      by simp
    then have "ci \<in> set (items s)" "cart ci = user_id u"
      using filter_singletonD [OF one] by auto
    then have "filter (\<lambda>j. cart j = v) (save_item (ci\<lparr>quantity := quantity ci + q\<rparr>) (items s))
                 = filter (\<lambda>j. cart j = v) (items s)"
      using assms by (intro save_item_other_carts [where ci = ci]) auto
    then show ?thesis using one
      by (auto simp: add_item_def cart_lines_def Let_def split: option.splits)
  next
    case (Cons b more)
    with \<open>filter _ _ = ci # rest\<close> show ?thesis
      by (auto simp: add_item_def cart_lines_def Let_def split: option.splits)
  qed
qed

lemma update_item_other_carts:
  assumes "distinct (map item_id (items s))" and "v \<noteq> user_id u"
  shows "cart_lines (fst (update_item s u iid qo)) v = cart_lines s v"
proof (cases "get_cart_item s (user_id u) iid")
  case None
  then show ?thesis by (simp add: update_item_def Let_def)
next
  case (Some ci)
  then have "ci \<in> set (items s)" "cart ci = user_id u"
    using get_cart_item_SomeD by blast+
  then have "\<And>q'. filter (\<lambda>j. cart j = v) (save_item (ci\<lparr>quantity := q'\<rparr>) (items s))
                 = filter (\<lambda>j. cart j = v) (items s)"
    using assms by (intro save_item_other_carts [where ci = ci]) auto
  then show ?thesis using Some
    by (auto simp: update_item_def cart_lines_def Let_def split: option.splits)
qed

lemma remove_item_other_carts:
  assumes "distinct (map item_id (items s))" and "v \<noteq> user_id u"
  shows "cart_lines (fst (remove_item s u iid)) v = cart_lines s v"
proof (cases "get_cart_item s (user_id u) iid")
  case None
  then show ?thesis by (simp add: remove_item_def)
next
  case (Some ci)
  then have "ci \<in> set (items s)" "cart ci = user_id u"
    using get_cart_item_SomeD by blast+
  then have "filter (\<lambda>j. cart j = v) (filter (\<lambda>j. item_id j \<noteq> item_id ci) (items s))
                 = filter (\<lambda>j. cart j = v) (items s)"
    using assms by (intro delete_item_other_carts) auto
  then show ?thesis using Some
    by (auto simp: remove_item_def cart_lines_def)
qed

lemma clear_other_carts:
  "v \<noteq> user_id u \<Longrightarrow> cart_lines (fst (clear s u)) v = cart_lines s v"
  by (auto simp: clear_def cart_lines_def intro: filter_cong)

text \<open>
  C6, as amended. Only \<open>add_item\<close> creates the caller's cart on demand: after it the
  caller owns a cart, and it never answers \<open>NotFound\<close>. \<open>update_item\<close>,
  \<open>remove_item\<close> and \<open>clear\<close> do not create the cart: for a caller who owns none,
  each fails with \<open>NotFound\<close> and changes nothing. All four operate on the caller's
  own cart: with the line ids being primary keys, the lines of every other user's cart
  are the same after the call as before.
\<close>

theorem cart_on_demand_add_item_only:
  "user_id u \<in> carts (fst (add_item s u pid q)) \<and>
   snd (add_item s u pid q) \<noteq> Inl NotFound \<and>
   (user_id u \<notin> carts s \<longrightarrow>
      update_item s u iid qo = (s, Inl NotFound) \<and>
      remove_item s u iid = (s, Inl NotFound) \<and>
      clear s u = (s, Inl NotFound)) \<and>
   (distinct (map item_id (items s)) \<and> v \<noteq> user_id u \<longrightarrow>
      cart_lines (fst (add_item s u pid q)) v = cart_lines s v \<and>
      cart_lines (fst (update_item s u iid qo)) v = cart_lines s v \<and>
      cart_lines (fst (remove_item s u iid)) v = cart_lines s v \<and>
      cart_lines (fst (clear s u)) v = cart_lines s v)"
  using add_item_creates_cart [of u s pid q] add_item_not_NotFound [of s u pid q]
        add_item_other_carts [of s v u pid q] update_item_other_carts [of s v u iid qo]
        remove_item_other_carts [of s v u iid] clear_other_carts [of v u s]
  by (simp add: update_item_def remove_item_def clear_def)

theorem cart_on_demand_add_item_only_witness:
  "user_id bob \<notin> carts shop0 \<and> user_id bob \<in> carts (fst (add_item shop0 bob 7 1)) \<and>
   clear shop0 bob = (shop0, Inl NotFound) \<and>
   distinct (map item_id (items shop1)) \<and> 2 \<noteq> user_id alice \<and>
   cart_lines (fst (clear shop1 alice)) 2 = cart_lines shop1 2 \<and>
   cart_lines (fst (add_item shop1 alice 7 1)) 2 = cart_lines shop1 2"
proof -
  have h0: "user_id bob \<notin> carts shop0" by (simp add: bob_def shop0_def)
  have h1: "distinct (map item_id (items shop1)) \<and> 2 \<noteq> user_id alice"
    by (simp add: alice_def shop1_def)
  show ?thesis
    using cart_on_demand_add_item_only [of bob shop0 7 1 "Some 1" "Some 1" 1]
          cart_on_demand_add_item_only [of alice shop1 7 1 "Some 1" "Some 1" 2] h0 h1
    by simp
qed

text \<open>
  The claim as first stated fails: in a shop where nobody owns a cart, \<open>update_item\<close>,
  \<open>remove_item\<close> and \<open>clear\<close> are all answered \<open>NotFound\<close>, and no cart is made.
\<close>

theorem cart_on_demand_counterexample:
  "carts shop0 = {} \<and>
   update_item shop0 bob (Some 1) (Some 1) = (shop0, Inl NotFound) \<and>
   remove_item shop0 bob (Some 1) = (shop0, Inl NotFound) \<and>
   clear shop0 bob = (shop0, Inl NotFound)"
  by (simp add: update_item_def remove_item_def clear_def shop0_def bob_def)

section \<open>add_item\<close>

lemma add_item_new:
  assumes none: "filter (\<lambda>i. cart i = user_id u \<and> product_id i = pid) (items s) = []"
    and p: "products s pid = Some p" and q: "0 < q" and le: "q \<le> stock_quantity p"
  shows "add_item s u pid q =
     ((Cart_get_or_create s (user_id u))
        \<lparr>items := items s @ [\<lparr>item_id = next_item_id s, cart = user_id u,
                              product_id = pid, quantity = q\<rparr>],
         next_item_id := Suc (next_item_id s)\<rparr>,
      Inr \<lparr>item_id = next_item_id s, cart = user_id u, product_id = pid, quantity = q\<rparr>)"
  using none p q le
  by (simp add: add_item_def CartItemSerializer_is_valid_def check_def Let_def)

lemma add_item_new_rejected:
  assumes none: "filter (\<lambda>i. cart i = user_id u \<and> product_id i = pid) (items s) = []"
    and p: "products s pid = Some p" and q: "0 < q" and gt: "stock_quantity p < q"
  shows "add_item s u pid q = (Cart_get_or_create s (user_id u), Inl InsufficientStock)"
  using none p q gt
  by (simp add: add_item_def CartItemSerializer_is_valid_def check_def Let_def)

lemma add_item_new_invalid:
  "q \<le> 0 \<Longrightarrow> add_item s u pid q = (Cart_get_or_create s (user_id u), Inl InvalidQuantity)"
  by (simp add: add_item_def CartItemSerializer_is_valid_def Let_def)

text \<open>
  C2. Let the caller's cart hold no line for the product, and let the product be in the
  catalogue with a stock that is not negative. Then a request for more than the stock
  fails with \<open>InsufficientStock\<close> and the line table is as before, so no line is
  created. Whenever the request succeeds, the quantity is positive and within the stock,
  and the cart then holds exactly one line for the product, carrying the requested
  quantity; and every positive quantity within the stock does succeed.
\<close>

theorem add_item_new_line_after_check:
  "filter (\<lambda>i. cart i = user_id u \<and> product_id i = pid) (items s) = [] \<and>
   products s pid = Some p \<and> 0 \<le> stock_quantity p \<longrightarrow>
     (stock_quantity p < q \<longrightarrow>
        (\<exists>s'. add_item s u pid q = (s', Inl InsufficientStock) \<and> items s' = items s)) \<and>
     (\<forall>s' ci. add_item s u pid q = (s', Inr ci) \<longrightarrow>
        0 < q \<and> q \<le> stock_quantity p \<and> quantity ci = q \<and>
        filter (\<lambda>i. cart i = user_id u \<and> product_id i = pid) (items s') = [ci]) \<and>
     (0 < q \<and> q \<le> stock_quantity p \<longrightarrow>
        (\<exists>s' ci. add_item s u pid q = (s', Inr ci)))"
proof (intro impI, elim conjE)
  let ?P = "\<lambda>i. cart i = user_id u \<and> product_id i = pid"
  assume none: "filter ?P (items s) = []" and p: "products s pid = Some p"
    and st: "0 \<le> stock_quantity p"
  have rejected: "\<exists>s'. add_item s u pid q = (s', Inl InsufficientStock) \<and> items s' = items s"
    if "stock_quantity p < q"
  proof -
    from that st have "0 < q" by simp
    from add_item_new_rejected [OF none p this that] show ?thesis by simp
  qed
  have accepted: "0 < q \<and> q \<le> stock_quantity p \<and> quantity ci = q \<and>
      filter ?P (items s') = [ci]"
    if run: "add_item s u pid q = (s', Inr ci)" for s' ci
  proof -
    have q: "0 < q"
    proof (rule ccontr)
      assume "\<not> 0 < q"
      then have "q \<le> 0" by simp
      from add_item_new_invalid [OF this] run show False by simp
    qed
    have le: "q \<le> stock_quantity p"
    proof (rule ccontr)
      assume "\<not> q \<le> stock_quantity p"
      then have "stock_quantity p < q" by simp
      from add_item_new_rejected [OF none p q this] run show False by simp
    qed
    from add_item_new [OF none p q le] run none
    have "quantity ci = q \<and> filter ?P (items s') = [ci]" by auto
    with q le show ?thesis by simp
  qed
  have succeeds: "\<exists>s' ci. add_item s u pid q = (s', Inr ci)"
    if "0 < q \<and> q \<le> stock_quantity p"
    using add_item_new [OF none p] that by simp
  from rejected accepted succeeds
  show "(stock_quantity p < q \<longrightarrow>
        (\<exists>s'. add_item s u pid q = (s', Inl InsufficientStock) \<and> items s' = items s)) \<and>
     (\<forall>s' ci. add_item s u pid q = (s', Inr ci) \<longrightarrow>
        0 < q \<and> q \<le> stock_quantity p \<and> quantity ci = q \<and>
        filter ?P (items s') = [ci]) \<and>
     (0 < q \<and> q \<le> stock_quantity p \<longrightarrow>
        (\<exists>s' ci. add_item s u pid q = (s', Inr ci)))"
    by blast
qed

theorem add_item_new_line_after_check_witness:
  "cart_lines shop0 (user_id alice) = [] \<and> stock_quantity widget = 5 \<and>
   (\<exists>s'. add_item shop0 alice 7 9 = (s', Inl InsufficientStock) \<and> items s' = []) \<and>
   (\<exists>s' ci. add_item shop0 alice 7 5 = (s', Inr ci) \<and> quantity ci = 5 \<and>
        filter (\<lambda>i. cart i = 1 \<and> product_id i = 7) (items s') = [ci])"
proof -
  have none: "filter (\<lambda>i. cart i = user_id alice \<and> product_id i = 7) (items shop0) = []"
    and p: "products shop0 7 = Some widget" and st: "stock_quantity widget = 5"
    and its: "items shop0 = []" and u: "user_id alice = 1"
    and cl: "cart_lines shop0 (user_id alice) = []"
    by (simp_all add: shop0_def widget_def alice_def cart_lines_def)
  have a: "\<exists>s'. add_item shop0 alice 7 9 = (s', Inl InsufficientStock) \<and> items s' = []"
    using add_item_new_line_after_check [of alice 7 shop0 widget 9] none p st its
    by simp
  have "\<exists>s' ci. add_item shop0 alice 7 5 = (s', Inr ci)"
    using add_item_new_line_after_check [of alice 7 shop0 widget 5] none p st
    by simp
  then obtain s' ci where run: "add_item shop0 alice 7 5 = (s', Inr ci)" by blast
  with add_item_new_line_after_check [of alice 7 shop0 widget 5] none p st
  have "quantity ci = 5 \<and>
        filter (\<lambda>i. cart i = user_id alice \<and> product_id i = 7) (items s') = [ci]"
    by simp
  with run have b: "\<exists>s' ci. add_item shop0 alice 7 5 = (s', Inr ci) \<and> quantity ci = 5 \<and>
        filter (\<lambda>i. cart i = 1 \<and> product_id i = 7) (items s') = [ci]"
    unfolding u by blast
  from cl st a b show ?thesis by simp
qed

lemma map_item_id_save_item:
  "map item_id (save_item ci xs) = map item_id xs"
  by (induction xs) (auto simp: save_item_def)

lemma set_save_item_subset:
  "set (save_item ci xs) \<subseteq> insert ci (set xs)"
  by (auto simp: save_item_def)

lemma filter_save_item_none:
  "filter P xs = [] \<Longrightarrow> \<forall>j \<in> set xs. item_id j \<noteq> item_id ci \<Longrightarrow>
   filter P (save_item ci xs) = []"
  by (induction xs) (auto simp: save_item_def split: if_splits)

lemma filter_save_item_one:
  assumes "distinct (map item_id xs)" and "filter P xs = [ci]"
    and "item_id ci' = item_id ci" and "P ci'"
  shows "filter P (save_item ci' xs) = [ci']"
  using assms
proof (induction xs)
  case Nil
  then show ?case by simp
next
  case (Cons x xs)
  show ?case
  proof (cases "P x")
    case True
    with Cons.prems have x: "x = ci" and rest: "filter P xs = []" by auto
    from Cons.prems(1) x have "\<forall>j \<in> set xs. item_id j \<noteq> item_id ci'"
      using Cons.prems(3) by (auto simp: image_iff)
    then have "filter P (save_item ci' xs) = []"
      using rest by (intro filter_save_item_none) auto
    then show ?thesis using x Cons.prems(3,4)
      by (simp add: save_item_def)
  next
    case False
    with Cons.prems have rest: "filter P xs = [ci]" by simp
    then have "ci \<in> set xs" using filter_singletonD by fastforce
    with Cons.prems(1) have "item_id x \<noteq> item_id ci" by force
    moreover have "filter P (save_item ci' xs) = [ci']"
      using Cons.IH Cons.prems rest by simp
    ultimately show ?thesis using False Cons.prems(3)
      by (simp add: save_item_def)
  qed
qed

lemma add_item_existing:
  assumes one: "filter (\<lambda>i. cart i = user_id u \<and> product_id i = pid) (items s) = [ci]"
    and p: "products s pid = Some p" and q: "0 < q"
  shows "add_item s u pid q =
     (if quantity ci + q \<le> stock_quantity p
      then ((Cart_get_or_create s (user_id u))
              \<lparr>items := save_item (ci\<lparr>quantity := quantity ci + q\<rparr>) (items s)\<rparr>,
            Inr (ci\<lparr>quantity := quantity ci + q\<rparr>))
      else (Cart_get_or_create s (user_id u), Inl InsufficientStock))"
  using one p q
  by (simp add: add_item_def CartItemSerializer_is_valid_def Let_def)

lemma add_items_from_line:
  assumes "pk_ok s"
    and "filter (\<lambda>i. cart i = user_id u \<and> product_id i = pid) (items s) = [ci]"
    and "products s pid = Some p"
    and "\<forall>q \<in> set qs. 0 < q"
    and "\<forall>n \<le> length qs. quantity ci + sum_list (take n qs) \<le> stock_quantity p"
  shows "\<exists>s' rs. add_items s u pid qs = (s', rs) \<and> length rs = length qs \<and>
           (\<forall>r \<in> set rs. \<exists>c. r = Inr c) \<and>
           filter (\<lambda>i. cart i = user_id u \<and> product_id i = pid) (items s')
             = [ci\<lparr>quantity := quantity ci + sum_list qs\<rparr>]"
  using assms
proof (induction qs arbitrary: s ci)
  case Nil
  then show ?case by simp
next
  case (Cons q qs)
  let ?P = "\<lambda>i. cart i = user_id u \<and> product_id i = pid"
  let ?ci = "ci\<lparr>quantity := quantity ci + q\<rparr>"
  let ?s1 = "(Cart_get_or_create s (user_id u))\<lparr>items := save_item ?ci (items s)\<rparr>"
  have q: "0 < q" using Cons.prems(4) by simp
  have "quantity ci + sum_list (take 1 (q # qs)) \<le> stock_quantity p"
    using Cons.prems(5) by (metis One_nat_def Suc_leI length_Cons zero_less_Suc)
  then have le: "quantity ci + q \<le> stock_quantity p" by simp
  have step: "add_item s u pid q = (?s1, Inr ?ci)"
    using add_item_existing [OF Cons.prems(2,3) q] le by simp
  have ci: "ci \<in> set (items s)" "?P ci"
    using filter_singletonD [OF Cons.prems(2)] by auto
  have pk1: "pk_ok ?s1"
    using Cons.prems(1) ci set_save_item_subset [of ?ci "items s"]
    by (auto simp: pk_ok_def map_item_id_save_item)
  have one1: "filter ?P (items ?s1) = [?ci]"
    using Cons.prems(1) Cons.prems(2) ci
    by (simp add: pk_ok_def filter_save_item_one)
  have p1: "products ?s1 pid = Some p" using Cons.prems(3) by simp
  have pos: "\<forall>q \<in> set qs. 0 < q" using Cons.prems(4) by simp
  have pre: "\<forall>n \<le> length qs. quantity ?ci + sum_list (take n qs) \<le> stock_quantity p"
  proof (intro allI impI)
    fix n assume "n \<le> length qs"
    then have "Suc n \<le> length (q # qs)" by simp
    with Cons.prems(5) have "quantity ci + sum_list (take (Suc n) (q # qs)) \<le> stock_quantity p"
      by blast
    then show "quantity ?ci + sum_list (take n qs) \<le> stock_quantity p" by simp
  qed
  from Cons.IH [OF pk1 one1 p1 pos pre]
  obtain s' rs where run: "add_items ?s1 u pid qs = (s', rs)" "length rs = length qs"
      "\<forall>r \<in> set rs. \<exists>c. r = Inr c"
      "filter ?P (items s') = [?ci\<lparr>quantity := quantity ?ci + sum_list qs\<rparr>]"
    by blast
  show ?case using step run by (simp add: add.assoc)
qed


lemma add_items_from_empty:
  assumes pk: "pk_ok s"
    and none: "filter (\<lambda>i. cart i = user_id u \<and> product_id i = pid) (items s) = []"
    and p: "products s pid = Some p"
    and ne: "qs \<noteq> []"
    and pos: "\<forall>q \<in> set qs. 0 < q"
    and pre: "\<forall>n \<le> length qs. sum_list (take n qs) \<le> stock_quantity p"
  shows "\<exists>s' rs ci'. add_items s u pid qs = (s', rs) \<and> length rs = length qs \<and>
           (\<forall>r \<in> set rs. \<exists>c. r = Inr c) \<and>
           filter (\<lambda>i. cart i = user_id u \<and> product_id i = pid) (items s') = [ci'] \<and>
           quantity ci' = sum_list qs"
proof -
  let ?P = "\<lambda>i. cart i = user_id u \<and> product_id i = pid"
  from ne obtain q rest where qs: "qs = q # rest" by (cases qs) auto
  let ?ci = "\<lparr>item_id = next_item_id s, cart = user_id u, product_id = pid, quantity = q\<rparr>"
  let ?s1 = "(Cart_get_or_create s (user_id u))
               \<lparr>items := items s @ [?ci], next_item_id := Suc (next_item_id s)\<rparr>"
  have q: "0 < q" using pos qs by simp
  have "sum_list (take 1 qs) \<le> stock_quantity p"
    using pre qs by (metis One_nat_def Suc_leI length_Cons zero_less_Suc)
  then have le: "q \<le> stock_quantity p" using qs by simp
  have step: "add_item s u pid q = (?s1, Inr ?ci)"
    using add_item_new [OF none p q le] .
  have pk1: "pk_ok ?s1"
    using pk by (auto simp: pk_ok_def less_Suc_eq)
  have one1: "filter ?P (items ?s1) = [?ci]"
    using none by simp
  have p1: "products ?s1 pid = Some p" using p by simp
  have pos1: "\<forall>q \<in> set rest. 0 < q" using pos qs by simp
  have pre1: "\<forall>n \<le> length rest. quantity ?ci + sum_list (take n rest) \<le> stock_quantity p"
  proof (intro allI impI)
    fix n assume "n \<le> length rest"
    then have "Suc n \<le> length qs" using qs by simp
    with pre have "sum_list (take (Suc n) qs) \<le> stock_quantity p" by blast
    then show "quantity ?ci + sum_list (take n rest) \<le> stock_quantity p"
      using qs by simp
  qed
  from add_items_from_line [OF pk1 one1 p1 pos1 pre1]
  obtain s' rs where run: "add_items ?s1 u pid rest = (s', rs)" "length rs = length rest"
      "\<forall>r \<in> set rs. \<exists>c. r = Inr c"
      "filter ?P (items s') = [?ci\<lparr>quantity := quantity ?ci + sum_list rest\<rparr>]"
    by blast
  show ?thesis using step run qs by simp
qed

text \<open>
  C3. Let the caller's cart hold exactly one line for the product and let the request
  carry a positive quantity. If the line's quantity plus the requested one is within
  the product's stock, \<open>add_item\<close> succeeds and the stored line holds the sum;
  otherwise it fails with \<open>InsufficientStock\<close> and the stored lines are unchanged.
  Consequently, for a run of \<open>add_item\<close> requests with positive quantities for one
  product whose prefix sums all stay within the stock, every request succeeds and the
  cart ends with one line for the product whose quantity is the sum of the quantities
  added (on top of the quantity the line held before, when there was one).
\<close>

theorem add_item_accumulates:
  "pk_ok s \<and> products s pid = Some p \<longrightarrow>
     (filter (\<lambda>i. cart i = user_id u \<and> product_id i = pid) (items s) = [ci] \<and> 0 < q \<longrightarrow>
        (quantity ci + q \<le> stock_quantity p \<longrightarrow>
           (\<exists>s'. add_item s u pid q = (s', Inr (ci\<lparr>quantity := quantity ci + q\<rparr>)) \<and>
                 filter (\<lambda>i. cart i = user_id u \<and> product_id i = pid) (items s')
                   = [ci\<lparr>quantity := quantity ci + q\<rparr>])) \<and>
        (stock_quantity p < quantity ci + q \<longrightarrow>
           (\<exists>s'. add_item s u pid q = (s', Inl InsufficientStock) \<and> items s' = items s))) \<and>
     (filter (\<lambda>i. cart i = user_id u \<and> product_id i = pid) (items s) = [] \<and> qs \<noteq> [] \<and>
      (\<forall>x \<in> set qs. 0 < x) \<and>
      (\<forall>n \<le> length qs. sum_list (take n qs) \<le> stock_quantity p) \<longrightarrow>
        (\<exists>s' rs ci'. add_items s u pid qs = (s', rs) \<and> length rs = length qs \<and>
           (\<forall>r \<in> set rs. \<exists>c. r = Inr c) \<and>
           filter (\<lambda>i. cart i = user_id u \<and> product_id i = pid) (items s') = [ci'] \<and>
           quantity ci' = sum_list qs)) \<and>
     (filter (\<lambda>i. cart i = user_id u \<and> product_id i = pid) (items s) = [ci] \<and>
      (\<forall>x \<in> set qs. 0 < x) \<and>
      (\<forall>n \<le> length qs. quantity ci + sum_list (take n qs) \<le> stock_quantity p) \<longrightarrow>
        (\<exists>s' rs. add_items s u pid qs = (s', rs) \<and> length rs = length qs \<and>
           (\<forall>r \<in> set rs. \<exists>c. r = Inr c) \<and>
           filter (\<lambda>i. cart i = user_id u \<and> product_id i = pid) (items s')
             = [ci\<lparr>quantity := quantity ci + sum_list qs\<rparr>]))"
proof (intro impI conjI; elim conjE)
  let ?P = "\<lambda>i. cart i = user_id u \<and> product_id i = pid"
  let ?ci = "ci\<lparr>quantity := quantity ci + q\<rparr>"
  {
    assume pk: "pk_ok s" and p: "products s pid = Some p"
      and one: "filter ?P (items s) = [ci]" and q: "0 < q"
      and le: "quantity ci + q \<le> stock_quantity p"
    have ci: "ci \<in> set (items s)" "?P ci" using filter_singletonD [OF one] by auto
    have "filter ?P (save_item ?ci (items s)) = [?ci]"
      using pk one ci by (simp add: pk_ok_def filter_save_item_one)
    then show "\<exists>s'. add_item s u pid q = (s', Inr ?ci) \<and> filter ?P (items s') = [?ci]"
      using add_item_existing [OF one p q] le by simp
  next
    assume p: "products s pid = Some p"
      and one: "filter ?P (items s) = [ci]" and q: "0 < q"
      and gt: "stock_quantity p < quantity ci + q"
    show "\<exists>s'. add_item s u pid q = (s', Inl InsufficientStock) \<and> items s' = items s"
      using add_item_existing [OF one p q] gt by simp
  next
    assume a: "pk_ok s" "products s pid = Some p" "filter ?P (items s) = []" "qs \<noteq> []"
      "\<forall>x \<in> set qs. 0 < x" "\<forall>n \<le> length qs. sum_list (take n qs) \<le> stock_quantity p"
    show "\<exists>s' rs ci'. add_items s u pid qs = (s', rs) \<and> length rs = length qs \<and>
           (\<forall>r \<in> set rs. \<exists>c. r = Inr c) \<and> filter ?P (items s') = [ci'] \<and>
           quantity ci' = sum_list qs"
      using add_items_from_empty [OF a(1,3,2,4,5,6)] .
  next
    assume b: "pk_ok s" "products s pid = Some p" "filter ?P (items s) = [ci]"
      "\<forall>x \<in> set qs. 0 < x"
      "\<forall>n \<le> length qs. quantity ci + sum_list (take n qs) \<le> stock_quantity p"
    show "\<exists>s' rs. add_items s u pid qs = (s', rs) \<and> length rs = length qs \<and>
           (\<forall>r \<in> set rs. \<exists>c. r = Inr c) \<and>
           filter ?P (items s') = [ci\<lparr>quantity := quantity ci + sum_list qs\<rparr>]"
      using add_items_from_line [OF b(1,3,2,4,5)] .
  }
qed


lemma le_two_cases: "n \<le> Suc (Suc 0) \<Longrightarrow> n = 0 \<or> n = Suc 0 \<or> n = Suc (Suc 0)"
  by arith

theorem add_item_accumulates_witness:
  "(\<exists>s'. add_item shop1 alice 7 2
            = (s', Inr \<lparr>item_id = 1, cart = 1, product_id = 7, quantity = 5\<rparr>) \<and>
         filter (\<lambda>i. cart i = 1 \<and> product_id i = 7) (items s')
            = [\<lparr>item_id = 1, cart = 1, product_id = 7, quantity = 5\<rparr>]) \<and>
   (\<exists>s'. add_item shop1 alice 7 4 = (s', Inl InsufficientStock) \<and> items s' = items shop1) \<and>
   (\<exists>s' rs ci'. add_items shop0 alice 7 [3, 2] = (s', rs) \<and> length rs = 2 \<and>
         (\<forall>r \<in> set rs. \<exists>c. r = Inr c) \<and>
         filter (\<lambda>i. cart i = 1 \<and> product_id i = 7) (items s') = [ci'] \<and> quantity ci' = 5)"
proof -
  let ?ci = "\<lparr>item_id = 1, cart = 1, product_id = 7, quantity = 3\<rparr>"
  have pk1: "pk_ok shop1" and pk0: "pk_ok shop0"
    by (simp_all add: pk_ok_def shop1_def shop0_def)
  have p1: "products shop1 7 = Some widget" and p0: "products shop0 7 = Some widget"
    by (simp_all add: shop1_def shop0_def)
  have one: "filter (\<lambda>i. cart i = user_id alice \<and> product_id i = 7) (items shop1) = [?ci]"
    and none: "filter (\<lambda>i. cart i = user_id alice \<and> product_id i = 7) (items shop0) = []"
    by (simp_all add: shop1_def shop0_def alice_def)
  have st: "stock_quantity widget = 5" by (simp add: widget_def)
  have pre0: "\<forall>n \<le> length [3, 2 :: int]. sum_list (take n [3, 2]) \<le> stock_quantity widget"
    by (auto simp: st dest!: le_two_cases)
  have pre1: "\<forall>n \<le> length [1, 1 :: int].
      quantity ?ci + sum_list (take n [1, 1]) \<le> stock_quantity widget"
    by (auto simp: st dest!: le_two_cases)
  have a: "\<exists>s'. add_item shop1 alice 7 2
            = (s', Inr \<lparr>item_id = 1, cart = 1, product_id = 7, quantity = 5\<rparr>) \<and>
         filter (\<lambda>i. cart i = 1 \<and> product_id i = 7) (items s')
            = [\<lparr>item_id = 1, cart = 1, product_id = 7, quantity = 5\<rparr>]"
    using add_item_accumulates [of shop1 7 widget alice ?ci 2 "[1, 1]"] pk1 p1 one st pre1
    by (simp add: alice_def)
  have b: "\<exists>s'. add_item shop1 alice 7 4 = (s', Inl InsufficientStock) \<and> items s' = items shop1"
    using add_item_accumulates [of shop1 7 widget alice ?ci 4 "[1, 1]"] pk1 p1 one st pre1
    by (simp add: alice_def)
  have c: "\<exists>s' rs ci'. add_items shop0 alice 7 [3, 2] = (s', rs) \<and> length rs = 2 \<and>
         (\<forall>r \<in> set rs. \<exists>c. r = Inr c) \<and>
         filter (\<lambda>i. cart i = 1 \<and> product_id i = 7) (items s') = [ci'] \<and> quantity ci' = 5"
    using add_item_accumulates [of shop0 7 widget alice ?ci 2 "[3, 2]"] pk0 p0 none pre0
    by (simp add: alice_def numeral_2_eq_2 del: add_items.simps)
  from a b c show ?thesis by blast
qed

section \<open>The order factory\<close>

lemma line_qty_Nil [simp]: "line_qty pid [] = 0"
  by (simp add: line_qty_def)

lemma line_qty_Cons [simp]:
  "line_qty pid (i # ls) = (if product_id i = pid then quantity i else 0) + line_qty pid ls"
  by (simp add: line_qty_def)

lemma reserve_Inr:
  "reserve L pid q = Inr L' \<Longrightarrow>
   \<exists>p. L pid = Some p \<and> q \<le> stock_quantity p \<and>
       L' = L(pid \<mapsto> p\<lparr>stock_quantity := stock_quantity p - q\<rparr>)"
  by (auto simp: reserve_def split: option.splits if_splits)

lemma reserve_lines_subset:
  "reserve_lines L ls = (L', rs, fs) \<Longrightarrow> set rs \<subseteq> set ls"
proof (induction ls arbitrary: L L' rs fs)
  case Nil
  then show ?case by simp
next
  case (Cons i ls)
  then show ?case
    by (auto split: sum.splits prod.splits) blast+
qed

lemma reserve_lines_all:
  "reserve_lines L ls = (L', rs, []) \<Longrightarrow> rs = ls"
  by (induction ls arbitrary: L L' rs) (auto split: sum.splits prod.splits)

lemma reserve_lines_ledger:
  "reserve_lines L ls = (L', rs, fs) \<Longrightarrow>
   L' pid = map_option (\<lambda>p. p\<lparr>stock_quantity := stock_quantity p - line_qty pid rs\<rparr>) (L pid)"
proof (induction ls arbitrary: L L' rs fs)
  case Nil
  then show ?case by (cases "L pid") auto
next
  case (Cons i ls)
  show ?case
  proof (cases "reserve L (product_id i) (quantity i)")
    case (Inl f)
    with Cons.prems obtain rs' fs' where
      "reserve_lines L ls = (L', rs', fs')" "rs = rs'"
      by (auto split: prod.splits)
    with Cons.IH show ?thesis by simp
  next
    case (Inr L1)
    with Cons.prems obtain rs' where
      rest: "reserve_lines L1 ls = (L', rs', fs)" and rs: "rs = i # rs'"
      by (auto split: prod.splits)
    from reserve_Inr [OF Inr] obtain p where
      p: "L (product_id i) = Some p"
      and L1: "L1 = L(product_id i \<mapsto> p\<lparr>stock_quantity := stock_quantity p - quantity i\<rparr>)"
      by blast
    have "L' pid = map_option (\<lambda>p. p\<lparr>stock_quantity := stock_quantity p - line_qty pid rs'\<rparr>) (L1 pid)"
      using Cons.IH [OF rest] .
    then show ?thesis
      using p L1 rs by (cases "L pid") (auto simp: algebra_simps)
  qed
qed

lemma release_ledger:
  "release L k q pid =
     map_option (\<lambda>p. p\<lparr>stock_quantity := stock_quantity p + (if k = pid then q else 0)\<rparr>) (L pid)"
  by (cases "L pid"; cases "L k") (auto simp: release_def)

lemma release_lines_ledger:
  "release_lines L rs pid =
     map_option (\<lambda>p. p\<lparr>stock_quantity := stock_quantity p + line_qty pid rs\<rparr>) (L pid)"
proof (induction rs arbitrary: L)
  case Nil
  then show ?case by (cases "L pid") auto
next
  case (Cons i rs)
  show ?case
    by (cases "L pid") (auto simp: Cons.IH release_ledger algebra_simps)
qed

lemma release_undoes_reserve:
  assumes "reserve_lines L ls = (L', rs, fs)"
  shows "release_lines L' rs = L"
proof
  fix pid
  show "release_lines L' rs pid = L pid"
    by (cases "L pid")
       (simp_all add: release_lines_ledger reserve_lines_ledger [OF assms])
qed


lemma line_qty_absent:
  "pid \<notin> product_id ` set ls \<Longrightarrow> line_qty pid ls = 0"
  by (induction ls) auto

lemma line_qty_distinct:
  "distinct (map product_id ls) \<Longrightarrow> i \<in> set ls \<Longrightarrow> line_qty (product_id i) ls = quantity i"
  by (induction ls) (auto simp: line_qty_absent)

lemma reserve_lines_within_stock:
  "distinct (map product_id ls) \<Longrightarrow> reserve_lines L ls = (L', rs, fs) \<Longrightarrow> i \<in> set rs \<Longrightarrow>
   \<exists>p. L (product_id i) = Some p \<and> quantity i \<le> stock_quantity p"
proof (induction ls arbitrary: L L' rs fs)
  case Nil
  then show ?case by simp
next
  case (Cons j ls)
  show ?case
  proof (cases "reserve L (product_id j) (quantity j)")
    case (Inl f)
    with Cons.prems obtain rs' fs' where
      "reserve_lines L ls = (L', rs', fs')" "rs = rs'"
      by (auto split: prod.splits)
    with Cons.IH Cons.prems show ?thesis by auto
  next
    case (Inr L1)
    with Cons.prems obtain rs' where
      rest: "reserve_lines L1 ls = (L', rs', fs)" and rs: "rs = j # rs'"
      by (auto split: prod.splits)
    from reserve_Inr [OF Inr] obtain p where
      p: "L (product_id j) = Some p" "quantity j \<le> stock_quantity p"
      and L1: "L1 = L(product_id j \<mapsto> p\<lparr>stock_quantity := stock_quantity p - quantity j\<rparr>)"
      by blast
    show ?thesis
    proof (cases "i = j")
      case True
      with p show ?thesis by simp
    next
      case False
      with rs Cons.prems(3) have i: "i \<in> set rs'" by simp
      then have "i \<in> set ls" using reserve_lines_subset [OF rest] by blast
      with Cons.prems(1) have ne: "product_id i \<noteq> product_id j"
        by (auto simp: image_iff)
      from Cons.IH [OF _ rest i] Cons.prems(1)
      obtain p' where "L1 (product_id i) = Some p'" "quantity i \<le> stock_quantity p'"
        by auto
      with ne L1 show ?thesis by simp
    qed
  qed
qed

lemma distinct_map_insort_key:
  "distinct (map f (insort_key f x xs)) = (f x \<notin> f ` set xs \<and> distinct (map f xs))"
  by (induction xs) (auto simp: set_insort_key)

lemma distinct_map_sort_key:
  "distinct (map f (sort_key f xs)) = distinct (map f xs)"
  by (induction xs) (auto simp: sort_key_def distinct_map_insort_key simp flip: sort_key_def)

lemma snapshot_lines_all:
  "\<forall>i \<in> set ls. L (product_id i) \<noteq> None \<Longrightarrow>
   map (\<lambda>l. (line_product_id l, line_quantity l)) (List.map_filter (snapshot L) ls)
     = map (\<lambda>i. (product_id i, quantity i)) ls"
  by (induction ls) (auto simp: List.map_filter_simps snapshot_def split: option.splits)

lemma order_factory_create_failure:
  "order_factory_create s uid = (s', Inl e) \<Longrightarrow> s' = s"
  by (auto simp: order_factory_create_def Let_def release_undoes_reserve
           split: if_splits prod.splits)

lemma order_factory_create_success:
  assumes run: "order_factory_create s uid = (s', Inr ord)"
  shows "cart_lines s uid \<noteq> [] \<and>
         reserve_lines (products s) (sort_key product_id (cart_lines s uid))
           = (products s', sort_key product_id (cart_lines s uid), []) \<and>
         items s' = filter (\<lambda>j. cart j \<noteq> uid) (items s) \<and>
         carts s' = carts s \<and>
         orders s' = orders s @ [ord] \<and>
         order_id ord = next_order_id s \<and> order_user ord = uid \<and> status ord = Pending \<and>
         order_lines ord = List.map_filter (snapshot (products s'))
                             (sort_key product_id (cart_lines s uid)) \<and>
         total ord = order_total (order_lines ord)"
proof -
  let ?ls = "sort_key product_id (cart_lines s uid)"
  obtain L rs fs where r: "reserve_lines (products s) ?ls = (L, rs, fs)"
    by (cases "reserve_lines (products s) ?ls") auto
  from run r have ne: "?ls \<noteq> []" and fs: "fs = []"
    by (auto simp: order_factory_create_def cart_lines_def Let_def split: if_splits)
  from r fs have rs: "rs = ?ls" using reserve_lines_all by blast
  from ne have ne': "cart_lines s uid \<noteq> []" by auto
  from run r ne fs rs ne' show ?thesis
    by (auto simp: order_factory_create_def cart_lines_def Let_def)
qed


lemma reserve_lines_known:
  "reserve_lines L ls = (L', rs, fs) \<Longrightarrow> i \<in> set rs \<Longrightarrow> L' (product_id i) \<noteq> None"
proof (induction ls arbitrary: L L' rs fs)
  case Nil
  then show ?case by simp
next
  case (Cons j ls)
  show ?case
  proof (cases "reserve L (product_id j) (quantity j)")
    case (Inl f)
    with Cons.prems obtain rs' fs' where
      "reserve_lines L ls = (L', rs', fs')" "rs = rs'"
      by (auto split: prod.splits)
    with Cons.IH Cons.prems show ?thesis by auto
  next
    case (Inr L1)
    with Cons.prems obtain rs' where
      rest: "reserve_lines L1 ls = (L', rs', fs)" and rs: "rs = j # rs'"
      by (auto split: prod.splits)
    from reserve_Inr [OF Inr] have "L1 (product_id j) \<noteq> None" by auto
    then have "L' (product_id j) \<noteq> None"
      by (simp add: reserve_lines_ledger [OF rest])
    with Cons.IH [OF rest] rs Cons.prems(2) show ?thesis by auto
  qed
qed

text \<open>
  C1. \<open>create_order\<close> is all or nothing. When it fails, the whole state is as
  before: no product's stock has changed and the cart is unchanged. When it succeeds,
  the caller's cart is empty, the stock of products the cart did not hold is
  unchanged, and, the cart holding one line per product, every line's product had at
  least the line's quantity in stock and its stock is now lower by exactly that
  quantity; the order created is pending, belongs to the caller, carries the cart's
  lines with their quantities, and none of its lines exceeds the stock that was
  available.
\<close>

theorem create_order_all_or_nothing:
  "(\<forall>s' e. create_order s u = (s', Inl e) \<longrightarrow> s' = s) \<and>
   (\<forall>s' ord. create_order s u = (s', Inr ord) \<longrightarrow>
      cart_lines s' (user_id u) = [] \<and>
      (\<forall>pid. pid \<notin> product_id ` set (cart_lines s (user_id u)) \<longrightarrow>
         products s' pid = products s pid) \<and>
      (distinct (map product_id (cart_lines s (user_id u))) \<longrightarrow>
         (\<forall>i \<in> set (cart_lines s (user_id u)).
            \<exists>p. products s (product_id i) = Some p \<and> quantity i \<le> stock_quantity p \<and>
                products s' (product_id i)
                  = Some (p\<lparr>stock_quantity := stock_quantity p - quantity i\<rparr>)) \<and>
         (\<forall>l \<in> set (order_lines ord).
            \<exists>p. products s (line_product_id l) = Some p \<and>
                line_quantity l \<le> stock_quantity p)) \<and>
      map (\<lambda>l. (line_product_id l, line_quantity l)) (order_lines ord)
        = map (\<lambda>i. (product_id i, quantity i))
              (sort_key product_id (cart_lines s (user_id u))) \<and>
      status ord = Pending \<and> order_user ord = user_id u \<and> orders s' = orders s @ [ord])"
proof (intro conjI allI impI)
  fix s' e
  assume "create_order s u = (s', Inl e)"
  then show "s' = s"
    by (simp add: create_order_def order_factory_create_failure)
next
  fix s' ord
  assume run: "create_order s u = (s', Inr ord)"
  let ?cl = "cart_lines s (user_id u)"
  let ?ls = "sort_key product_id ?cl"
  from run have ok: "order_factory_create s (user_id u) = (s', Inr ord)"
    by (simp add: create_order_def)
  note facts = order_factory_create_success [OF ok]
  from facts have r: "reserve_lines (products s) ?ls = (products s', ?ls, [])" by blast
  have ledger: "\<And>pid. products s' pid =
      map_option (\<lambda>p. p\<lparr>stock_quantity := stock_quantity p - line_qty pid ?ls\<rparr>) (products s pid)"
    using reserve_lines_ledger [OF r] .
  have known: "\<forall>i \<in> set ?ls. products s' (product_id i) \<noteq> None"
    using reserve_lines_known [OF r] by blast
  show "cart_lines s' (user_id u) = []"
    using facts by (auto simp: cart_lines_def filter_empty_conv)
  show lines: "map (\<lambda>l. (line_product_id l, line_quantity l)) (order_lines ord)
        = map (\<lambda>i. (product_id i, quantity i)) ?ls"
    using facts snapshot_lines_all [OF known] by simp
  show "status ord = Pending" "order_user ord = user_id u" "orders s' = orders s @ [ord]"
    using facts by simp_all
  {
    fix pid assume "pid \<notin> product_id ` set ?cl"
    then have "line_qty pid ?ls = 0" by (intro line_qty_absent) simp
    then show "products s' pid = products s pid"
      by (cases "products s pid") (simp_all add: ledger)
  }
  {
    assume d: "distinct (map product_id ?cl)"
    then have d': "distinct (map product_id ?ls)" by (simp add: distinct_map_sort_key)
    have each: "\<exists>p. products s (product_id i) = Some p \<and> quantity i \<le> stock_quantity p \<and>
                products s' (product_id i)
                  = Some (p\<lparr>stock_quantity := stock_quantity p - quantity i\<rparr>)"
      if "i \<in> set ?cl" for i
    proof -
      from that have i: "i \<in> set ?ls" by simp
      from reserve_lines_within_stock [OF d' r i] obtain p where
        p: "products s (product_id i) = Some p" "quantity i \<le> stock_quantity p" by blast
      have "line_qty (product_id i) ?ls = quantity i"
        using line_qty_distinct [OF d' i] .
      with p show ?thesis by (simp add: ledger)
    qed
    then show "\<forall>i \<in> set ?cl. \<exists>p. products s (product_id i) = Some p \<and>
                quantity i \<le> stock_quantity p \<and>
                products s' (product_id i)
                  = Some (p\<lparr>stock_quantity := stock_quantity p - quantity i\<rparr>)"
      by blast
    show "\<forall>l \<in> set (order_lines ord).
            \<exists>p. products s (line_product_id l) = Some p \<and> line_quantity l \<le> stock_quantity p"
    proof
      fix l assume "l \<in> set (order_lines ord)"
      then have "(line_product_id l, line_quantity l)
                   \<in> set (map (\<lambda>i. (product_id i, quantity i)) ?ls)"
        using lines by (metis (no_types, lifting) image_eqI list.set_map)
      then obtain i where "i \<in> set ?cl" "line_product_id l = product_id i"
          "line_quantity l = quantity i"
        by auto
      with each show "\<exists>p. products s (line_product_id l) = Some p \<and>
                          line_quantity l \<le> stock_quantity p"
        by fastforce
    qed
  }
qed

theorem create_order_all_or_nothing_witness:
  "create_order shop2 bob = (shop2, Inl (InsufficientStockFor [StockFailure 8 4 2])) \<and>
   (\<exists>s' ord. create_order shop1 bob = (s', Inr ord) \<and> cart_lines s' 2 = [] \<and>
       distinct (map product_id (cart_lines shop1 2)) \<and>
       products s' 7 = Some (widget\<lparr>stock_quantity := 2\<rparr>) \<and>
       products s' 8 = Some (gadget\<lparr>stock_quantity := 1\<rparr>) \<and>
       map (\<lambda>l. (line_product_id l, line_quantity l)) (order_lines ord) = [(7, 3), (8, 1)])"
proof -
  have u: "user_id bob = 2" by (simp add: bob_def)
  \<comment> \<open>The failing order: the widget line is reserved, the gadget line is not.\<close>
  let ?w = "\<lparr>item_id = 3, cart = 2, product_id = 7, quantity = 3\<rparr>"
  let ?g = "\<lparr>item_id = 2, cart = 2, product_id = 8, quantity = 4\<rparr>"
  have sorted2: "sort_key product_id (filter (\<lambda>i. cart i = 2) (items shop2)) = [?w, ?g]"
    by (simp add: shop2_def)
  have res2: "reserve_lines (products shop2) [?w, ?g]
      = ((products shop2)(7 \<mapsto> widget\<lparr>stock_quantity := 2\<rparr>), [?w], [StockFailure 8 4 2])"
    by (simp add: reserve_def shop2_def widget_def gadget_def)
  have snd2: "snd (create_order shop2 bob) = Inl (InsufficientStockFor [StockFailure 8 4 2])"
    by (simp add: create_order_def order_factory_create_def Let_def sorted2 res2 u
             del: reserve_lines.simps)
  have run2: "create_order shop2 bob
      = (fst (create_order shop2 bob), Inl (InsufficientStockFor [StockFailure 8 4 2]))"
    using snd2 by (simp add: prod_eq_iff)
  have "fst (create_order shop2 bob) = shop2"
    using create_order_all_or_nothing [of shop2 bob, THEN conjunct1, rule_format, OF run2] .
  with run2 have a: "create_order shop2 bob
      = (shop2, Inl (InsufficientStockFor [StockFailure 8 4 2]))" by simp
  \<comment> \<open>The order that goes through.\<close>
  let ?w1 = "\<lparr>item_id = 2, cart = 2, product_id = 7, quantity = 3\<rparr>"
  let ?g1 = "\<lparr>item_id = 3, cart = 2, product_id = 8, quantity = 1\<rparr>"
  have cl: "cart_lines shop1 2 = [?w1, ?g1]"
    by (simp add: cart_lines_def shop1_def)
  have sorted1: "sort_key product_id (filter (\<lambda>i. cart i = 2) (items shop1)) = [?w1, ?g1]"
    by (simp add: shop1_def)
  have res1: "reserve_lines (products shop1) [?w1, ?g1]
      = ((products shop1)(7 \<mapsto> widget\<lparr>stock_quantity := 2\<rparr>,
                           8 \<mapsto> gadget\<lparr>stock_quantity := 1\<rparr>), [?w1, ?g1], [])"
    by (simp add: reserve_def shop1_def widget_def gadget_def)
  have "\<exists>ord. snd (create_order shop1 bob) = Inr ord"
    by (simp add: create_order_def order_factory_create_def Let_def sorted1 res1 u
             del: reserve_lines.simps)
  then obtain ord where snd1: "snd (create_order shop1 bob) = Inr ord" ..
  define s1 where "s1 = fst (create_order shop1 bob)"
  have ok: "create_order shop1 bob = (s1, Inr ord)"
    using snd1 by (simp add: s1_def prod_eq_iff)
  have d: "distinct (map product_id (cart_lines shop1 2))"
    by (simp add: cl)
  have p: "products shop1 7 = Some widget" "products shop1 8 = Some gadget"
    by (simp_all add: shop1_def)
  have st: "stock_quantity widget - 3 = 2" "stock_quantity gadget - 1 = 1"
    by (simp_all add: widget_def gadget_def)
  note T = create_order_all_or_nothing [of shop1 bob, THEN conjunct2, rule_format, OF ok,
             unfolded u]
  from T have e: "cart_lines s1 2 = []" by (rule conjunct1)
  from T d have each: "\<forall>i \<in> set (cart_lines shop1 2).
            \<exists>p. products shop1 (product_id i) = Some p \<and> quantity i \<le> stock_quantity p \<and>
                products s1 (product_id i)
                  = Some (p\<lparr>stock_quantity := stock_quantity p - quantity i\<rparr>)"
    by blast
  from each have "\<exists>p. products shop1 (product_id ?w1) = Some p \<and>
                products s1 (product_id ?w1)
                  = Some (p\<lparr>stock_quantity := stock_quantity p - quantity ?w1\<rparr>)"
    unfolding cl by auto
  then have w: "products s1 7 = Some (widget\<lparr>stock_quantity := 2\<rparr>)"
    using p st by auto
  from each have "\<exists>p. products shop1 (product_id ?g1) = Some p \<and>
                products s1 (product_id ?g1)
                  = Some (p\<lparr>stock_quantity := stock_quantity p - quantity ?g1\<rparr>)"
    unfolding cl by auto
  then have g: "products s1 8 = Some (gadget\<lparr>stock_quantity := 1\<rparr>)"
    using p st by auto
  from T have "map (\<lambda>l. (line_product_id l, line_quantity l)) (order_lines ord)
        = map (\<lambda>i. (product_id i, quantity i)) (sort_key product_id (cart_lines shop1 2))"
    by blast
  then have m: "map (\<lambda>l. (line_product_id l, line_quantity l)) (order_lines ord)
        = [(7, 3), (8, 1)]"
    unfolding cl by simp
  have "\<exists>s' ord. create_order shop1 bob = (s', Inr ord) \<and> cart_lines s' 2 = [] \<and>
       distinct (map product_id (cart_lines shop1 2)) \<and>
       products s' 7 = Some (widget\<lparr>stock_quantity := 2\<rparr>) \<and>
       products s' 8 = Some (gadget\<lparr>stock_quantity := 1\<rparr>) \<and>
       map (\<lambda>l. (line_product_id l, line_quantity l)) (order_lines ord) = [(7, 3), (8, 1)]"
    by (rule exI [of _ s1], rule exI [of _ ord]) (simp only: ok e d w g m simp_thms)
  with a show ?thesis by (rule conjI)
qed

end
